theory Spec2Isabelle
  imports Complex_Main
begin

section \<open>Python values\<close>

text \<open>
  A Python \<open>str\<close> is a sequence of Unicode code points, so it is modelled as a list of
  natural numbers: the price marker U+00A5 is the single element 165, and the two
  ideographs of the localized "free" marker are 0x7121 and 0x6599. ASCII literals are
  written through \<open>ascii\<close>.

  A Python \<open>float\<close> is modelled by the real number it stands for. The claims below
  compare scores with the literals 0.8 and 0.6 and the code rounds scores to
  hundredths; order comparisons of doubles are exact, and no double lies between a two
  digit decimal and the double nearest to it, so every comparison of the code has the
  same outcome on the reals. The additions and multiplications of the score formula are
  taken exactly, not rounded to binary64.
\<close>

type_synonym str = "nat list"

definition ascii :: "string \<Rightarrow> str" where
  "ascii s = map of_char s"

text \<open>
  \<open>str.lower()\<close>: the letters A to Z are mapped to a to z. Every other code point is
  left as it is, which is what Python does for digits, punctuation, currency signs and
  ideographs; the case tables of non-ASCII alphabets are outside this development.
\<close>

definition lower_cp :: "nat \<Rightarrow> nat" where
  "lower_cp c = (if 65 \<le> c \<and> c \<le> 90 then c + 32 else c)"

definition lower :: "str \<Rightarrow> str" where
  "lower s = map lower_cp s"

text \<open>\<open>needle in hay\<close> on strings: \<open>needle\<close> occurs as a contiguous substring.\<close>

definition startswith :: "str \<Rightarrow> str \<Rightarrow> bool" where
  "startswith hay needle = (take (length needle) hay = needle)"

fun str_in :: "str \<Rightarrow> str \<Rightarrow> bool" where
  "str_in needle [] = (needle = [])"
| "str_in needle (h # hs) = (startswith (h # hs) needle \<or> str_in needle hs)"

text \<open>\<open>str(n)\<close> for an integer: the decimal digits, with a minus sign for negatives.\<close>

fun digits10 :: "nat \<Rightarrow> str" where
  "digits10 n = (if n < 10 then [48 + n] else digits10 (n div 10) @ [48 + n mod 10])"

declare digits10.simps [simp del]

definition str_of_int :: "int \<Rightarrow> str" where
  "str_of_int i = (if i < 0 then 45 # digits10 (nat (- i)) else digits10 (nat i))"

text \<open>The values stored in the confirmation dictionaries: strings and integers.\<close>

datatype pyval = VStr str | VInt int

text \<open>A \<open>datetime\<close> is a count of microseconds since the epoch.\<close>

type_synonym datetime = int

definition timedelta_days :: "int \<Rightarrow> int" where
  "timedelta_days d = d * 86400000000"


section \<open>models/event\_models.py\<close>

datatype EventPlatform = PEATIX | EVENTBRITE | CONNPASS | MEETUP | DOORKEEPER | JETRO | CHAMBER

text \<open>
  \<open>EventPlatform\<close> is a \<open>str\<close> enumeration and \<open>Event\<close> is configured with
  \<open>use_enum_values\<close>: the field holds the member's string value, which is what the
  registrar compares with string literals.
\<close>

fun platform_value :: "EventPlatform \<Rightarrow> str" where
  "platform_value PEATIX = ascii ''peatix''"
| "platform_value EVENTBRITE = ascii ''eventbrite''"
| "platform_value CONNPASS = ascii ''connpass''"
| "platform_value MEETUP = ascii ''meetup''"
| "platform_value DOORKEEPER = ascii ''doorkeeper''"
| "platform_value JETRO = ascii ''jetro''"
| "platform_value CHAMBER = ascii ''chamber''"

record Event =
  title :: str
  description :: str
  date :: datetime
  venue :: str
  city :: str
  source_url :: str
  source_platform :: EventPlatform
  price :: str
  registration_required :: bool

record RankedEvent =
  event :: Event
  relevance_score :: real
  matched_keywords :: "str list"
  confidence :: real

record RegistrationResult =
  ranked :: RankedEvent
  success :: bool
  confirmation_data :: "(str \<times> pyval) list option"
  qr_code_url :: "str option"
  error_message :: "str option"

record DigestEvent =
  digest_title :: str
  digest_date :: str
  digest_venue :: str
  digest_description :: str
  source_link :: str
  digest_relevance_score :: real
  registration_status :: str

text \<open>
  Field names are global in a theory, so the \<open>event\<close> field of \<open>RegistrationResult\<close> is
  called \<open>ranked\<close> here, and the fields \<open>DigestEvent\<close> shares with the other models
  carry the prefix \<open>digest_\<close>.
\<close>


section \<open>agents/event\_registrar.py\<close>

text \<open>
  The registrar reads two things from its surroundings: Python's \<open>hash\<close> of a string
  (salted per process, so a parameter), and whether an unexpected exception is raised
  while a registration is synthesized (\<open>fault re = Some msg\<close>: an \<open>Exception\<close> whose
  \<open>str\<close> is \<open>msg\<close> is raised in the body of the handler called for \<open>re\<close>). The
  sleeps between attempts do not change any value and are left out.
\<close>

record registrar_env =
  py_hash :: "str \<Rightarrow> int"
  fault :: "RankedEvent \<Rightarrow> str option"

definition free_indicators :: "str list" where
  "free_indicators =
     [ascii ''free'', [0x7121, 0x6599], ascii ''0'', ascii ''zero'', ascii ''no charge'']"

definition should_register :: "RankedEvent \<Rightarrow> bool" where
  "should_register ranked_event =
     (let ev = event ranked_event in
      if relevance_score ranked_event < 0.8 then False
      else
        let price_lower = lower (price ev) in
        if \<not> list_ex (\<lambda>free_indicator. str_in free_indicator price_lower) free_indicators
        then False
        else if \<not> registration_required ev then False
        else True)"

definition failure :: "RankedEvent \<Rightarrow> str \<Rightarrow> RegistrationResult" where
  "failure ranked_event error_msg =
     \<lparr>ranked = ranked_event, success = False, confirmation_data = None,
      qr_code_url = None, error_message = Some error_msg\<rparr>"

definition qr_prefix :: str where
  "qr_prefix = ascii ''https://api.qrserver.com/v1/create-qr-code/?size=200x200&data=''"

definition register_connpass :: "registrar_env \<Rightarrow> RankedEvent \<Rightarrow> RegistrationResult" where
  "register_connpass env ranked_event =
     (case fault env ranked_event of
        Some e \<Rightarrow> failure ranked_event (ascii ''Connpass registration failed: '' @ e)
      | None \<Rightarrow>
          \<lparr>ranked = ranked_event, success = True,
           confirmation_data = Some
             [(ascii ''platform'', VStr (ascii ''connpass'')),
              (ascii ''event_id'',
                 VStr (ascii ''CONNPASS_'' @
                       str_of_int (py_hash env (source_url (event ranked_event))))),
              (ascii ''registration_date'', VStr (ascii ''2024-01-15'')),
              (ascii ''status'', VStr (ascii ''confirmed'')),
              (ascii ''ticket_type'', VStr [0x4E00, 0x822C])],
           qr_code_url = Some (qr_prefix @ source_url (event ranked_event)),
           error_message = None\<rparr>)"

definition register_peatix :: "registrar_env \<Rightarrow> RankedEvent \<Rightarrow> RegistrationResult" where
  "register_peatix env ranked_event =
     (case fault env ranked_event of
        Some e \<Rightarrow> failure ranked_event (ascii ''Peatix registration failed: '' @ e)
      | None \<Rightarrow>
          \<lparr>ranked = ranked_event, success = True,
           confirmation_data = Some
             [(ascii ''platform'', VStr (ascii ''peatix'')),
              (ascii ''order_id'',
                 VStr (ascii ''PEATIX_'' @
                       str_of_int (py_hash env (source_url (event ranked_event))))),
              (ascii ''ticket_type'', VStr (ascii ''Free Admission'')),
              (ascii ''status'', VStr (ascii ''confirmed''))],
           qr_code_url = Some (qr_prefix @ ascii ''PEATIX_'' @
                               str_of_int (py_hash env (source_url (event ranked_event)))),
           error_message = None\<rparr>)"

definition register_meetup :: "registrar_env \<Rightarrow> RankedEvent \<Rightarrow> RegistrationResult" where
  "register_meetup env ranked_event =
     (case fault env ranked_event of
        Some e \<Rightarrow> failure ranked_event (ascii ''Meetup registration failed: '' @ e)
      | None \<Rightarrow>
          \<lparr>ranked = ranked_event, success = True,
           confirmation_data = Some
             [(ascii ''platform'', VStr (ascii ''meetup'')),
              (ascii ''rsvp_id'',
                 VStr (ascii ''MEETUP_'' @
                       str_of_int (py_hash env (source_url (event ranked_event))))),
              (ascii ''status'', VStr (ascii ''yes'')),
              (ascii ''guests'', VInt 0)],
           qr_code_url = None,
           error_message = None\<rparr>)"

text \<open>
  The generic handler has no \<open>try\<close> of its own: an exception leaves it (\<open>Inl\<close>) and is
  caught by \<open>_register_single_event\<close>.
\<close>

definition register_generic :: "registrar_env \<Rightarrow> RankedEvent \<Rightarrow> str + RegistrationResult" where
  "register_generic env ranked_event =
     (case fault env ranked_event of
        Some e \<Rightarrow> Inl e
      | None \<Rightarrow> Inr
          \<lparr>ranked = ranked_event, success = True,
           confirmation_data = Some
             [(ascii ''platform'', VStr (platform_value (source_platform (event ranked_event)))),
              (ascii ''status'', VStr (ascii ''auto_registered'')),
              (ascii ''registration_date'', VStr (ascii ''2024-01-15'')),
              (ascii ''note'', VStr (ascii ''Automatic registration by Raptor Event Scout''))],
           qr_code_url = None,
           error_message = None\<rparr>)"

definition register_single_event :: "registrar_env \<Rightarrow> RankedEvent \<Rightarrow> RegistrationResult" where
  "register_single_event env ranked_event =
     (let platform = platform_value (source_platform (event ranked_event)) in
      if platform = ascii ''connpass'' then register_connpass env ranked_event
      else if platform = ascii ''peatix'' then register_peatix env ranked_event
      else if platform = ascii ''meetup'' then register_meetup env ranked_event
      else
        (case register_generic env ranked_event of
           Inr r \<Rightarrow> r
         | Inl e \<Rightarrow> failure ranked_event (ascii ''Registration error: '' @ e)))"

text \<open>
  The loop of \<open>register_for_events\<close>, with its two local variables as arguments:
  \<open>results\<close> and \<open>registered_count\<close>. The \<open>break\<close> returns what has been collected.
\<close>

fun register_loop ::
  "registrar_env \<Rightarrow> RankedEvent list \<Rightarrow> RegistrationResult list \<Rightarrow> nat \<Rightarrow> RegistrationResult list"
where
  "register_loop env [] results registered_count = results"
| "register_loop env (ranked_event # rest) results registered_count =
     (if registered_count \<ge> 3 then results
      else if should_register ranked_event then
        (let result = register_single_event env ranked_event;
             results' = results @ [result]
         in if success result
            then register_loop env rest results' (registered_count + 1)
            else register_loop env rest results' registered_count)
      else register_loop env rest results registered_count)"

definition register_for_events :: "registrar_env \<Rightarrow> RankedEvent list \<Rightarrow> RegistrationResult list" where
  "register_for_events env ranked_events = register_loop env ranked_events [] 0"


section \<open>agents/event\_ranker.py\<close>

definition relevance_keywords :: "str list" where
  "relevance_keywords =
     [ascii ''startup'', ascii ''AI'', ascii ''artificial intelligence'', ascii ''HR tech'',
      ascii ''expat'', ascii ''business'', ascii ''innovation'', ascii ''hiring'',
      ascii ''tech'', ascii ''technology'', ascii ''entrepreneur'', ascii ''venture'',
      ascii ''funding'', ascii ''networking'', ascii ''machine learning'',
      ascii ''digital transformation'', ascii ''partnership'', ascii ''client'',
      ascii ''investment'']"

definition find_keyword_matches :: "Event \<Rightarrow> str list" where
  "find_keyword_matches ev =
     (let text = lower (title ev @ ascii '' '' @ description ev)
      in filter (\<lambda>keyword. str_in (lower keyword) text) relevance_keywords)"

text \<open>
  What \<open>float(score_text)\<close> can return: a finite number, an infinity or a NaN. The
  parser itself is Python's and is a parameter (\<open>None\<close>: it raises \<open>ValueError\<close>).
\<close>

datatype pyfloat = Finite real | PosInf | NegInf | NaN

text \<open>
  \<open>max(0.0, min(1.0, score))\<close>. Python's \<open>min(a, b)\<close> is \<open>b\<close> if \<open>b < a\<close> and \<open>a\<close>
  otherwise, and \<open>max(a, b)\<close> is \<open>b\<close> if \<open>b > a\<close> and \<open>a\<close> otherwise; every comparison with
  a NaN is false.
\<close>

fun clamp_score :: "pyfloat \<Rightarrow> real" where
  "clamp_score (Finite x) = max 0 (min 1 x)"
| "clamp_score PosInf = 1"
| "clamp_score NegInf = 0"
| "clamp_score NaN = 1"

text \<open>\<open>str.strip()\<close>: the code points for which \<open>str.isspace\<close> holds are removed at both ends.\<close>

definition isspace :: "nat \<Rightarrow> bool" where
  "isspace c =
     ((9 \<le> c \<and> c \<le> 13) \<or> (28 \<le> c \<and> c \<le> 32) \<or> c = 0x85 \<or> c = 0xA0 \<or> c = 0x1680 \<or>
      (0x2000 \<le> c \<and> c \<le> 0x200A) \<or> c = 0x2028 \<or> c = 0x2029 \<or> c = 0x202F \<or>
      c = 0x205F \<or> c = 0x3000)"

definition strip :: "str \<Rightarrow> str" where
  "strip s = rev (dropWhile isspace (rev (dropWhile isspace s)))"

text \<open>
  The surroundings of the ranker: the completion service, asked with a prompt that
  embeds the title, the first 500 code points of the description and the city
  (\<open>Inl\<close>: the call, or reading its \<open>content\<close>, raised; \<open>Inr\<close>: the content), and
  Python's \<open>float\<close> parser.
\<close>

record ranker_env =
  groq_run :: "str \<Rightarrow> str \<Rightarrow> str \<Rightarrow> str + str"
  py_float :: "str \<Rightarrow> pyfloat option"

definition get_semantic_score :: "ranker_env \<Rightarrow> Event \<Rightarrow> real" where
  "get_semantic_score env ev =
     (case groq_run env (title ev) (take 500 (description ev)) (city ev) of
        Inl e \<Rightarrow> 0.5
      | Inr content \<Rightarrow>
          (let score_text = strip content in
           case py_float env score_text of
             None \<Rightarrow> 0.5
           | Some score \<Rightarrow> clamp_score score))"

text \<open>
  \<open>round(x, 2)\<close>: the nearest multiple of one hundredth, a tie going to the even
  multiple.
\<close>

definition round_half_even :: "real \<Rightarrow> int" where
  "round_half_even y =
     (let f = \<lfloor>y\<rfloor>; d = y - of_int f
      in if d < 1 / 2 then f else if 1 / 2 < d then f + 1 else if even f then f else f + 1)"

definition round2 :: "real \<Rightarrow> real" where
  "round2 x = of_int (round_half_even (x * 100)) / 100"

text \<open>
  The constructor of \<open>RankedEvent\<close> validates both scores (\<open>Field(ge=0, le=1)\<close>) and
  raises otherwise.
\<close>

definition new_RankedEvent :: "Event \<Rightarrow> real \<Rightarrow> str list \<Rightarrow> real \<Rightarrow> str + RankedEvent" where
  "new_RankedEvent ev score kws conf =
     (if 0 \<le> score \<and> score \<le> 1 \<and> 0 \<le> conf \<and> conf \<le> 1
      then Inr \<lparr>event = ev, relevance_score = score, matched_keywords = kws, confidence = conf\<rparr>
      else Inl (ascii ''ValidationError''))"

definition target_cities :: "str list" where
  "target_cities = [ascii ''Osaka'', ascii ''Kobe'', ascii ''Kyoto'']"

definition calculate_relevance_score :: "ranker_env \<Rightarrow> Event \<Rightarrow> str + RankedEvent" where
  "calculate_relevance_score env ev =
     (let keyword_matches = find_keyword_matches ev;
          keyword_score = min 1 (real (length keyword_matches) * 0.2);
          semantic_score = get_semantic_score env ev;
          location_score = (if city ev \<in> set target_cities then 1 else 0.3);
          final_score = keyword_score * 0.4 + semantic_score * 0.3 + location_score * 0.2 + 0.1;
          final_score = max 0 (min 1 final_score)
      in new_RankedEvent ev (round2 final_score) keyword_matches semantic_score)"

text \<open>The loop of \<open>rank_events\<close>; an event whose scoring raises is skipped.\<close>

fun rank_loop :: "ranker_env \<Rightarrow> Event list \<Rightarrow> RankedEvent list \<Rightarrow> RankedEvent list" where
  "rank_loop env [] ranked_events = ranked_events"
| "rank_loop env (ev # rest) ranked_events =
     (case calculate_relevance_score env ev of
        Inl e \<Rightarrow> rank_loop env rest ranked_events
      | Inr ranked_event \<Rightarrow>
          if relevance_score ranked_event \<ge> 0.6
          then rank_loop env rest (ranked_events @ [ranked_event])
          else rank_loop env rest ranked_events)"

text \<open>
  \<open>list.sort(key=..., reverse=True)\<close> is stable and descending: the stable ascending
  sort on the negated key.
\<close>

definition rank_events :: "ranker_env \<Rightarrow> Event list \<Rightarrow> RankedEvent list" where
  "rank_events env events =
     (let ranked_events = rank_loop env events []
      in sort_key (\<lambda>x. - relevance_score x) ranked_events)"


section \<open>storage/supabase\_client.py\<close>

text \<open>
  The dictionary that \<open>save_events\<close> inserts. The two timestamps are rendered by
  \<open>isoformat\<close>, a parameter.
\<close>

record event_data =
  d_title :: str
  d_description :: str
  d_event_date :: str
  d_venue :: str
  d_city :: str
  d_source_url :: str
  d_source_platform :: str
  d_price :: str
  d_created_at :: str

text \<open>
  The table \<open>events\<close> of the hosted store, seen through the two requests the code sends.
  Each takes the store's state and returns the new state with either an exception
  (\<open>Inl\<close>) or the \<open>data\<close> of the response: for the lookup the \<open>id\<close> of every row whose
  \<open>source_url\<close> is the one given, for the insertion the \<open>id\<close> of every row the response
  carries. \<open>db_now i\<close> is the clock reading taken while the \<open>i\<close>-th event of a call is
  prepared.
\<close>

record 'st db_env =
  select_id :: "'st \<Rightarrow> str \<Rightarrow> 'st \<times> (str + str list)"
  insert_event :: "'st \<Rightarrow> event_data \<Rightarrow> 'st \<times> (str + str list)"
  db_now :: "nat \<Rightarrow> datetime"
  isoformat :: "datetime \<Rightarrow> str"

definition to_event_data :: "'st db_env \<Rightarrow> nat \<Rightarrow> Event \<Rightarrow> event_data" where
  "to_event_data env i ev =
     \<lparr>d_title = title ev, d_description = description ev,
      d_event_date = isoformat env (date ev), d_venue = venue ev, d_city = city ev,
      d_source_url = source_url ev, d_source_platform = platform_value (source_platform ev),
      d_price = price ev, d_created_at = isoformat env (db_now env i)\<rparr>"

text \<open>
  The loop of \<open>save_events\<close>: the store, the position in the input and the list
  \<open>event_ids\<close> are its variables. An exception skips the event.
\<close>

fun save_loop :: "'st db_env \<Rightarrow> 'st \<Rightarrow> nat \<Rightarrow> Event list \<Rightarrow> str list \<Rightarrow> str list \<times> 'st" where
  "save_loop env st i [] event_ids = (event_ids, st)"
| "save_loop env st i (ev # rest) event_ids =
     (case select_id env st (source_url ev) of
        (st1, Inl e) \<Rightarrow> save_loop env st1 (i + 1) rest event_ids
      | (st1, Inr (existing # _)) \<Rightarrow> save_loop env st1 (i + 1) rest (event_ids @ [existing])
      | (st1, Inr []) \<Rightarrow>
          (case insert_event env st1 (to_event_data env i ev) of
             (st2, Inl e) \<Rightarrow> save_loop env st2 (i + 1) rest event_ids
           | (st2, Inr (new # _)) \<Rightarrow> save_loop env st2 (i + 1) rest (event_ids @ [new])
           | (st2, Inr []) \<Rightarrow> save_loop env st2 (i + 1) rest event_ids))"

definition save_events :: "'st db_env \<Rightarrow> 'st \<Rightarrow> Event list \<Rightarrow> str list \<times> 'st" where
  "save_events env st events = save_loop env st 0 events []"

text \<open>
  Modelled from the spec: the hosted store is an external service and no code of it is
  in the repository. The spec describes it as a keyed store of rows with a generated
  identifier, with a point lookup by \<open>source_url\<close> and an insertion that returns the
  identifier. So: a table of rows in insertion order, each with a generated key; the
  lookup returns the keys of the rows with the given \<open>source_url\<close>; the insertion appends
  one row under a fresh key and returns that key. Neither raises. The key of the
  \<open>n\<close>-th row ever inserted is the decimal numeral of \<open>n\<close>.
\<close>

record table =
  rows :: "(str \<times> event_data) list"
  next_id :: nat

definition keys_for :: "table \<Rightarrow> str \<Rightarrow> str list" where
  "keys_for t url = map fst (filter (\<lambda>r. d_source_url (snd r) = url) (rows t))"

definition table_select :: "table \<Rightarrow> str \<Rightarrow> table \<times> (str + str list)" where
  "table_select t url = (t, Inr (keys_for t url))"

definition table_insert :: "table \<Rightarrow> event_data \<Rightarrow> table \<times> (str + str list)" where
  "table_insert t d =
     (let key = digits10 (next_id t)
      in (\<lparr>rows = rows t @ [(key, d)], next_id = next_id t + 1\<rparr>, Inr [key]))"

definition table_env :: "(nat \<Rightarrow> datetime) \<Rightarrow> (datetime \<Rightarrow> str) \<Rightarrow> table db_env" where
  "table_env clock fmt =
     \<lparr>select_id = table_select, insert_event = table_insert, db_now = clock, isoformat = fmt\<rparr>"

text \<open>The number of rows of a table that carry a given \<open>source_url\<close>.\<close>

definition rows_for :: "table \<Rightarrow> str \<Rightarrow> nat" where
  "rows_for t url = length (keys_for t url)"


section \<open>agents/notifier.py\<close>

text \<open>
  The surroundings of the notifier: whether the Telegram bot was created, the two
  environment variables of the e-mail channel, the outcome of each channel's delivery
  of a digest (\<open>Some e\<close>: it raised; this covers everything the channel does after the
  credentials are read), and \<open>strftime\<close> with the format of the digest.
\<close>

record notifier_env =
  telegram_bot :: bool
  EMAIL_USERNAME :: "str option"
  EMAIL_PASSWORD :: "str option"
  telegram_deliver :: "DigestEvent list \<Rightarrow> str option"
  smtp_deliver :: "DigestEvent list \<Rightarrow> str option"
  strftime :: "datetime \<Rightarrow> str"

text \<open>Truth value of \<open>os.getenv(...)\<close>: set, and not the empty string.\<close>

definition truthy :: "str option \<Rightarrow> bool" where
  "truthy v = (case v of None \<Rightarrow> False | Some s \<Rightarrow> s \<noteq> [])"

definition auto_registered :: str where
  "auto_registered = 0x2705 # ascii '' Auto-registered''"

definition manual_review :: str where
  "manual_review = [0x23F8, 0xFE0F] @ ascii '' Manual review''"

definition digest_event :: "notifier_env \<Rightarrow> RankedEvent \<Rightarrow> DigestEvent" where
  "digest_event env ranked_event =
     \<lparr>digest_title = title (event ranked_event),
      digest_date = strftime env (date (event ranked_event)),
      digest_venue = venue (event ranked_event),
      digest_description =
        (if length (description (event ranked_event)) > 200
         then take 200 (description (event ranked_event)) @ ascii ''...''
         else description (event ranked_event)),
      source_link = source_url (event ranked_event),
      digest_relevance_score = relevance_score ranked_event,
      registration_status =
        (if relevance_score ranked_event \<ge> 0.8 then auto_registered else manual_review)\<rparr>"

definition send_telegram_digest :: "notifier_env \<Rightarrow> DigestEvent list \<Rightarrow> bool" where
  "send_telegram_digest env events =
     (case telegram_deliver env events of None \<Rightarrow> True | Some e \<Rightarrow> False)"

definition send_email_digest :: "notifier_env \<Rightarrow> DigestEvent list \<Rightarrow> bool" where
  "send_email_digest env events =
     (if \<not> truthy (EMAIL_USERNAME env) \<or> \<not> truthy (EMAIL_PASSWORD env) then False
      else case smtp_deliver env events of None \<Rightarrow> True | Some e \<Rightarrow> False)"

definition send_weekly_digest :: "notifier_env \<Rightarrow> RankedEvent list \<Rightarrow> bool" where
  "send_weekly_digest env ranked_events =
     (let digest_events = map (digest_event env) (take 10 ranked_events);
          telegram_success =
            (if telegram_bot env then send_telegram_digest env digest_events else True);
          email_success =
            (if truthy (EMAIL_USERNAME env) then send_email_digest env digest_events else True);
          overall_success = (telegram_success \<or> email_success)
      in overall_success)"

text \<open>
  What the digest shows for the events it is given: the label of each of the first ten.
\<close>

definition digest_labels :: "notifier_env \<Rightarrow> RankedEvent list \<Rightarrow> str list" where
  "digest_labels env ranked_events =
     map (\<lambda>r. registration_status (digest_event env r)) (take 10 ranked_events)"

text \<open>
  A channel has succeeded when it is configured, was attempted and its delivery
  returned \<open>True\<close>.
\<close>

definition telegram_succeeded :: "notifier_env \<Rightarrow> RankedEvent list \<Rightarrow> bool" where
  "telegram_succeeded env ranked_events =
     (telegram_bot env \<and>
      send_telegram_digest env (map (digest_event env) (take 10 ranked_events)))"

definition email_succeeded :: "notifier_env \<Rightarrow> RankedEvent list \<Rightarrow> bool" where
  "email_succeeded env ranked_events =
     (truthy (EMAIL_USERNAME env) \<and>
      send_email_digest env (map (digest_event env) (take 10 ranked_events)))"


section \<open>agents/event\_finder.py\<close>

text \<open>
  One item of the list under the key \<open>events\<close> of a Connpass response: the fields the
  parser reads, each absent or a string.
\<close>

record connpass_item =
  i_title :: "str option"
  i_description :: "str option"
  i_started_at :: "str option"
  i_place :: "str option"
  i_address :: "str option"
  i_event_url :: "str option"
  i_fee :: "str option"

text \<open>
  A response: its status, and what \<open>response.json()\<close> followed by
  \<open>data.get('events', [])\<close> gives (\<open>Inl\<close>: one of them raises, the payload is malformed).
  An item on which the parser raises, because a field has another JSON type than
  string, is given as \<open>Inl\<close>.
\<close>

record response =
  status_code :: nat
  json_events :: "str + (str + connpass_item) list"

text \<open>
  The surroundings of the finder: the GET request sent for a city (\<open>Inl\<close>: it raises, as
  on a network error or a timeout), the clock (\<open>clock p c k\<close>: the \<open>k\<close>-th reading of
  \<open>datetime.now()\<close> in the search of platform \<open>p\<close> for city \<open>c\<close>; the searches run
  concurrently, so readings are named by the search that takes them),
  \<open>datetime.fromisoformat\<close> (\<open>None\<close>: \<open>ValueError\<close>) and the rendering of
  \<open>timestamp()\<close> in a formatted string.
\<close>

record finder_env =
  http_get :: "str \<Rightarrow> str + response"
  clock :: "EventPlatform \<Rightarrow> str \<Rightarrow> nat \<Rightarrow> datetime"
  fromisoformat :: "str \<Rightarrow> datetime option"
  timestamp :: "datetime \<Rightarrow> str"

definition cities :: "str list" where
  "cities = [ascii ''Osaka'', ascii ''Kobe'', ascii ''Kyoto'']"

definition platforms :: "EventPlatform list" where
  "platforms = [CONNPASS, PEATIX, MEETUP]"

definition city_mapping :: "(str \<times> str list) list" where
  "city_mapping =
     [(ascii ''Osaka'', [[0x5927, 0x962A], 0x14D # ascii ''saka'', ascii ''osaka'']),
      (ascii ''Kobe'', [[0x795E, 0x6238], [0x6B, 0x14D, 0x62, 0x65], ascii ''kobe'']),
      (ascii ''Kyoto'', [[0x4EAC, 0x90FD], [0x6B, 0x79, 0x14D, 0x74, 0x6F], ascii ''kyoto''])]"

definition convert_city_name :: "str \<Rightarrow> str \<Rightarrow> str" where
  "convert_city_name english_city japanese_address =
     (case find (\<lambda>(eng_city, jp_names).
                   list_ex (\<lambda>name. str_in name (lower japanese_address)) jp_names)
             city_mapping of
        Some (eng_city, jp_names) \<Rightarrow> eng_city
      | None \<Rightarrow> english_city)"

text \<open>\<open>s.replace('Z', '+00:00')\<close>.\<close>

definition replace_Z :: "str \<Rightarrow> str" where
  "replace_Z s = concat (map (\<lambda>c. if c = 90 then ascii ''+00:00'' else [c]) s)"

definition get_default :: "str option \<Rightarrow> string \<Rightarrow> str" where
  "get_default v d = (case v of Some s \<Rightarrow> s | None \<Rightarrow> ascii d)"

definition get_connpass_mock_events :: "finder_env \<Rightarrow> str \<Rightarrow> Event list" where
  "get_connpass_mock_events env cty =
     [\<lparr>title = ascii ''Tech Community Meetup '' @ cty,
       description = ascii ''Join the local tech community in '' @ cty @
         ascii '' for networking and knowledge sharing. Great opportunity to connect with developers and startups.'',
       date = clock env CONNPASS cty 0 + timedelta_days 10,
       venue = cty @ ascii '' Community Center'',
       city = cty,
       source_url = ascii ''https://connpass.com/event/'' @ lower cty @ ascii ''-tech-'' @
         timestamp env (clock env CONNPASS cty 1),
       source_platform = CONNPASS,
       price = ascii ''Free'',
       registration_required = True\<rparr>]"

text \<open>
  The body of the loop over the items: \<open>j\<close> is the position of the item, which names
  the clock readings it takes.
\<close>

definition parse_connpass_item :: "finder_env \<Rightarrow> str \<Rightarrow> nat \<Rightarrow> connpass_item \<Rightarrow> Event" where
  "parse_connpass_item env cty j item =
     (let jp_city = convert_city_name cty (get_default (i_address item) '''');
          event_date =
            (case i_started_at item of
               None \<Rightarrow> clock env CONNPASS cty (2 * j)
             | Some s \<Rightarrow>
                 if s = [] then clock env CONNPASS cty (2 * j)
                 else (case fromisoformat env (replace_Z s) of
                         Some d \<Rightarrow> d
                       | None \<Rightarrow> clock env CONNPASS cty (2 * j + 1) + timedelta_days 7))
      in \<lparr>title = get_default (i_title item) ''No Title'',
          description = take 500 (get_default (i_description item) ''No Description''),
          date = event_date,
          venue = get_default (i_place item) ''Unknown Venue'',
          city = jp_city,
          source_url = get_default (i_event_url item) '''',
          source_platform = CONNPASS,
          price = (if get_default (i_fee item) ''0'' = ascii ''0'' then ascii ''Free''
                   else 165 # get_default (i_fee item) ''0''),
          registration_required = True\<rparr>)"

fun parse_connpass_items ::
  "finder_env \<Rightarrow> str \<Rightarrow> nat \<Rightarrow> (str + connpass_item) list \<Rightarrow> Event list \<Rightarrow> Event list"
where
  "parse_connpass_items env cty j [] parsed_events = parsed_events"
| "parse_connpass_items env cty j (Inr item # rest) parsed_events =
     parse_connpass_items env cty (j + 1) rest
       (parsed_events @ [parse_connpass_item env cty j item])"
| "parse_connpass_items env cty j (Inl e # rest) parsed_events =
     parse_connpass_items env cty (j + 1) rest parsed_events"

text \<open>
  \<open>raise_for_status\<close> raises unless the status is a 2xx. Every exception of the body
  is caught by the handler that returns the mock events.
\<close>

definition search_connpass :: "finder_env \<Rightarrow> str \<Rightarrow> Event list" where
  "search_connpass env cty =
     (case http_get env cty of
        Inl e \<Rightarrow> get_connpass_mock_events env cty
      | Inr resp \<Rightarrow>
          if status_code resp = 403 then get_connpass_mock_events env cty
          else if \<not> (200 \<le> status_code resp \<and> status_code resp < 300)
          then get_connpass_mock_events env cty
          else (case json_events resp of
                  Inl e \<Rightarrow> get_connpass_mock_events env cty
                | Inr events \<Rightarrow> parse_connpass_items env cty 0 (take 5 events) []))"

definition search_peatix :: "finder_env \<Rightarrow> str \<Rightarrow> Event list" where
  "search_peatix env cty =
     [\<lparr>title = ascii ''AI & Startup Networking in '' @ cty,
       description = ascii ''Join us for an exciting networking event with AI startups and investors in '' @
         cty @ ascii ''. Great opportunity for partnerships and business development.'',
       date = clock env PEATIX cty 0 + timedelta_days 7,
       venue = cty @ ascii '' Business Center'',
       city = cty,
       source_url = ascii ''https://peatix.com/event/'' @ cty @ ascii ''-ai-'' @
         timestamp env (clock env PEATIX cty 1),
       source_platform = PEATIX,
       price = ascii ''Free'',
       registration_required = True\<rparr>]"

definition search_meetup :: "finder_env \<Rightarrow> str \<Rightarrow> Event list" where
  "search_meetup env cty =
     [\<lparr>title = ascii ''Tech Innovation Meetup '' @ cty,
       description = ascii ''Monthly tech meetup featuring the latest innovations in AI, HR tech, and business development in '' @
         cty @ ascii ''.'',
       date = clock env MEETUP cty 0 + timedelta_days 14,
       venue = cty @ ascii '' Tech Hub'',
       city = cty,
       source_url = ascii ''https://meetup.com/tech-'' @ cty @ ascii ''-'' @
         timestamp env (clock env MEETUP cty 1),
       source_platform = MEETUP,
       price = ascii ''Free'',
       registration_required = True\<rparr>]"

text \<open>
  No operation of the three searches raises here, so the handlers of
  \<open>_search_platform\<close>, \<open>_search_peatix\<close> and \<open>_search_meetup\<close> that return the empty list
  have no branch.
\<close>

definition search_platform :: "finder_env \<Rightarrow> EventPlatform \<Rightarrow> str \<Rightarrow> Event list" where
  "search_platform env platform cty =
     (if platform = CONNPASS then search_connpass env cty
      else if platform = PEATIX then search_peatix env cty
      else if platform = MEETUP then search_meetup env cty
      else [])"

text \<open>
  The tasks are created city by city and, for each city, platform by platform;
  \<open>gather\<close> returns their results in this order whatever the order of completion. An
  empty result adds nothing. Closing the client at the end is taken to succeed.
\<close>

definition tasks :: "(EventPlatform \<times> str) list" where
  "tasks = concat (map (\<lambda>cty. map (\<lambda>platform. (platform, cty)) platforms) cities)"

fun extend_all :: "Event list list \<Rightarrow> Event list \<Rightarrow> Event list" where
  "extend_all [] all_events = all_events"
| "extend_all (result # results) all_events =
     (if result \<noteq> [] then extend_all results (all_events @ result)
      else extend_all results all_events)"

definition discover_events :: "finder_env \<Rightarrow> Event list" where
  "discover_events env =
     (let results = map (\<lambda>(platform, cty). search_platform env platform cty) tasks
      in extend_all results [])"


text \<open>
  The query of a city fails when the request raises, when \<open>raise_for_status\<close> raises
  (the status is not a 2xx; this includes 403, which the code tests first), or when
  reading the payload raises.
\<close>

definition query_fails :: "finder_env \<Rightarrow> str \<Rightarrow> bool" where
  "query_fails env cty =
     (case http_get env cty of
        Inl e \<Rightarrow> True
      | Inr resp \<Rightarrow>
          \<not> (200 \<le> status_code resp \<and> status_code resp < 300) \<or> isl (json_events resp))"


section \<open>Concrete inputs\<close>

text \<open>Small events and environments on which the theorems below are exercised.\<close>

definition mk_event :: "string \<Rightarrow> EventPlatform \<Rightarrow> str \<Rightarrow> bool \<Rightarrow> Event" where
  "mk_event u p pr rq =
     \<lparr>title = ascii ''Tech Meetup'', description = ascii ''networking'', date = 0,
      venue = ascii ''Hall'', city = ascii ''Osaka'', source_url = ascii u,
      source_platform = p, price = pr, registration_required = rq\<rparr>"

definition mk_ranked :: "Event \<Rightarrow> real \<Rightarrow> RankedEvent" where
  "mk_ranked e s = \<lparr>event = e, relevance_score = s, matched_keywords = [], confidence = 0.5\<rparr>"

text \<open>The event of price \<open>\<yen>500\<close>: U+00A5 followed by the digits.\<close>

definition yen500 :: RankedEvent where
  "yen500 =
     mk_ranked (mk_event ''https://connpass.com/event/1'' CONNPASS (165 # ascii ''500'') True) 1"

definition free_at :: "string \<Rightarrow> EventPlatform \<Rightarrow> real \<Rightarrow> RankedEvent" where
  "free_at u p s = mk_ranked (mk_event u p (ascii ''Free'') True) s"

text \<open>An environment in which registering for the event of URL \<open>bad\<close> raises.\<close>

definition env0 :: registrar_env where
  "env0 =
     \<lparr>py_hash = (\<lambda>s. int (length s)),
      fault = (\<lambda>re. if source_url (event re) = ascii ''bad''
                     then Some (ascii ''boom'') else None)\<rparr>"

definition run5 :: "RankedEvent list" where
  "run5 = [free_at ''bad'' PEATIX 0.9, free_at ''a'' CONNPASS 0.95, yen500,
           free_at ''b'' MEETUP 0.7, free_at ''c'' JETRO 0.85]"


text \<open>
  A completion service that answers \<open>0.9\<close>, surrounded by blanks, for events in Osaka and
  fails for the others, and three events to rank.
\<close>

definition renv0 :: ranker_env where
  "renv0 =
     \<lparr>groq_run = (\<lambda>t d c. if c = ascii ''Osaka'' then Inr (ascii '' 0.9 '')
                            else Inl (ascii ''timeout'')),
      py_float = (\<lambda>s. if s = ascii ''0.9'' then Some (Finite 0.9) else None)\<rparr>"

definition ev_at :: "string \<Rightarrow> string \<Rightarrow> string \<Rightarrow> string \<Rightarrow> Event" where
  "ev_at u t d c =
     \<lparr>title = ascii t, description = ascii d, date = 0, venue = ascii ''Hall'',
      city = ascii c, source_url = ascii u, source_platform = PEATIX,
      price = ascii ''Free'', registration_required = True\<rparr>"

definition ev_ai :: Event where
  "ev_ai = ev_at ''u1'' ''AI tech'' ''startup'' ''Osaka''"

definition ev_low :: Event where
  "ev_low = ev_at ''u2'' ''Cooking'' '''' ''Tokyo''"

definition ev_mid :: Event where
  "ev_mid = ev_at ''u3'' ''Hiring fair'' '''' ''Kobe''"

text \<open>An empty table, and a second event that carries the URL of \<open>ev_ai\<close>.\<close>

definition table0 :: table where
  "table0 = \<lparr>rows = [], next_id = 1\<rparr>"

definition ev_ai_again :: Event where
  "ev_ai_again = ev_at ''u1'' ''AI tech (updated)'' ''startup'' ''Osaka''"

definition clock0 :: "nat \<Rightarrow> datetime" where
  "clock0 i = int i"

definition iso0 :: "datetime \<Rightarrow> str" where
  "iso0 d = str_of_int d"


text \<open>
  A run of the finder in which the request for Osaka times out, the one for Kobe is
  answered with one item that parses and one that does not, and the one for Kyoto is
  refused with status 403.
\<close>

definition kobe_item :: connpass_item where
  "kobe_item =
     \<lparr>i_title = Some (ascii ''Kobe JS''), i_description = None, i_started_at = None,
      i_place = None, i_address = Some [0x795E, 0x6238, 0x5E02], i_event_url = Some (ascii ''k1''),
      i_fee = Some (ascii ''500'')\<rparr>"

definition fenv0 :: finder_env where
  "fenv0 =
     \<lparr>http_get = (\<lambda>c. if c = ascii ''Osaka'' then Inl (ascii ''timeout'')
                       else if c = ascii ''Kobe''
                       then Inr \<lparr>status_code = 200,
                                 json_events = Inr [Inr kobe_item, Inl (ascii ''TypeError'')]\<rparr>
                       else Inr \<lparr>status_code = 403, json_events = Inl (ascii ''no body'')\<rparr>),
      clock = (\<lambda>p c k. int k),
      fromisoformat = (\<lambda>s. None),
      timestamp = str_of_int\<rparr>"

text \<open>Notifiers: no channel configured; only e-mail configured, and its delivery fails.\<close>

definition nenv_none :: notifier_env where
  "nenv_none =
     \<lparr>telegram_bot = False, EMAIL_USERNAME = None, EMAIL_PASSWORD = None,
      telegram_deliver = (\<lambda>ds. None), smtp_deliver = (\<lambda>ds. None), strftime = str_of_int\<rparr>"

definition nenv_smtp_down :: notifier_env where
  "nenv_smtp_down =
     \<lparr>telegram_bot = False, EMAIL_USERNAME = Some (ascii ''scout@example.org''),
      EMAIL_PASSWORD = Some (ascii ''secret''),
      telegram_deliver = (\<lambda>ds. None),
      smtp_deliver = (\<lambda>ds. Some (ascii ''connection refused'')), strftime = str_of_int\<rparr>"

text \<open>
  Six ranked events: three free ones that are registered, a fourth free one that the cap
  leaves out, one with a price that has no free marker, and one below the threshold.
\<close>

definition run6 :: "RankedEvent list" where
  "run6 = [free_at ''a'' CONNPASS 0.95, free_at ''b'' PEATIX 0.9, free_at ''c'' MEETUP 0.85,
           free_at ''d'' CONNPASS 0.82,
           mk_ranked (mk_event ''e'' PEATIX (165 # ascii ''555'') True) 0.81,
           free_at ''f'' MEETUP 0.7]"


section \<open>Facts about strings\<close>

lemma str_in_iff: "str_in n h \<longleftrightarrow> (\<exists>p s. h = p @ n @ s)"
proof (induction h)
  case Nil
  then show ?case by auto
next
  case (Cons a h)
  show ?case
  proof
    assume "str_in n (a # h)"
    then consider "startswith (a # h) n" | "str_in n h" by auto
    then show "\<exists>p s. a # h = p @ n @ s"
    proof cases
      case 1
      then have "a # h = [] @ n @ drop (length n) (a # h)"
        unfolding startswith_def by (metis append_Nil append_take_drop_id)
      then show ?thesis by blast
    next
      case 2
      with Cons obtain p s where "h = p @ n @ s" by blast
      then have "a # h = (a # p) @ n @ s" by simp
      then show ?thesis by blast
    qed
  next
    assume "\<exists>p s. a # h = p @ n @ s"
    then obtain p s where e: "a # h = p @ n @ s" by blast
    show "str_in n (a # h)"
    proof (cases p)
      case Nil
      with e have "startswith (a # h) n" by (simp add: startswith_def)
      then show ?thesis by simp
    next
      case (Cons b p')
      with e have "h = p' @ n @ s" by simp
      with Cons.IH have "str_in n h" by blast
      then show ?thesis by simp
    qed
  qed
qed


section \<open>The registrar\<close>

lemmas registrar_defs =
  digits10.simps should_register_def free_indicators_def lower_def lower_cp_def startswith_def ascii_def
  register_for_events_def register_single_event_def register_connpass_def
  register_peatix_def register_meetup_def register_generic_def failure_def

lemmas input_defs = mk_event_def mk_ranked_def yen500_def free_at_def env0_def run5_def

subsection \<open>The loop\<close>

lemma register_loop_count:
  "n = length (filter success rs) \<Longrightarrow>
   length (filter success (register_loop env xs rs n)) \<le> max 3 n"
proof (induction xs arbitrary: rs n)
  case Nil
  then show ?case by simp
next
  case (Cons x xs)
  show ?case
  proof (cases "n \<ge> 3")
    case True
    with Cons.prems show ?thesis by simp
  next
    case small: False
    show ?thesis
    proof (cases "should_register x")
      case False
      with small Cons.IH[OF Cons.prems] show ?thesis by simp
    next
      case True
      let ?r = "register_single_event env x"
      show ?thesis
      proof (cases "success ?r")
        case True
        have "Suc n = length (filter success (rs @ [?r]))" using True Cons.prems by simp
        from Cons.IH[OF this] small \<open>should_register x\<close> True show ?thesis
          by (simp add: Let_def max_def split: if_splits)
      next
        case False
        have "n = length (filter success (rs @ [?r]))" using False Cons.prems by simp
        from Cons.IH[OF this] small \<open>should_register x\<close> False show ?thesis
          by (simp add: Let_def)
      qed
    qed
  qed
qed

lemma register_loop_full: "n \<ge> 3 \<Longrightarrow> register_loop env xs rs n = rs"
  by (cases xs) simp_all

lemma register_loop_stop:
  "n = length (filter success rs) \<Longrightarrow>
   length (filter success (register_loop env xs rs n)) \<ge> 3 \<Longrightarrow>
   register_loop env (xs @ ys) rs n = register_loop env xs rs n"
proof (induction xs arbitrary: rs n)
  case Nil
  then show ?case by (simp add: register_loop_full)
next
  case (Cons x xs)
  show ?case
  proof (cases "n \<ge> 3")
    case True
    then show ?thesis by simp
  next
    case small: False
    show ?thesis
    proof (cases "should_register x")
      case False
      with small Cons show ?thesis by simp
    next
      case True
      let ?r = "register_single_event env x"
      show ?thesis
      proof (cases "success ?r")
        case s: True
        have c: "Suc n = length (filter success (rs @ [?r]))" using s Cons.prems by simp
        have "length (filter success (register_loop env xs (rs @ [?r]) (Suc n))) \<ge> 3"
          using Cons.prems(2) small True s by (simp add: Let_def)
        from Cons.IH[OF c this] small True s show ?thesis by (simp add: Let_def)
      next
        case s: False
        have c: "n = length (filter success (rs @ [?r]))" using s Cons.prems by simp
        have "length (filter success (register_loop env xs (rs @ [?r]) n)) \<ge> 3"
          using Cons.prems(2) small True s by (simp add: Let_def)
        from Cons.IH[OF c this] small True s show ?thesis by (simp add: Let_def)
      qed
    qed
  qed
qed

lemma register_loop_set:
  "set (register_loop env xs rs n) \<subseteq> set rs \<union> register_single_event env ` set xs"
proof (induction xs arbitrary: rs n)
  case Nil
  then show ?case by simp
next
  case (Cons x xs)
  have a: "set (register_loop env xs (rs @ [register_single_event env x]) m)
        \<subseteq> set rs \<union> register_single_event env ` set (x # xs)" for m
    using Cons.IH[of "rs @ [register_single_event env x]" m] by auto
  have b: "set (register_loop env xs rs n) \<subseteq> set rs \<union> register_single_event env ` set (x # xs)"
    using Cons.IH[of rs n] by auto
  show ?case using a b by (auto simp add: Let_def)
qed

lemma run5_results:
  "map success (register_for_events env0 run5) = [False, True, True, True]"
  by (simp add: registrar_defs input_defs Let_def)

text \<open>
  C2. Whatever events are supplied, at most three of the results returned by
  \<open>register_for_events\<close> are successful; and once three successes have been collected
  the loop stops, so that events supplied after that point change nothing. Failed
  attempts are kept in the result but are not counted towards the cap.
\<close>

theorem register_for_events_cap:
  "length (filter success (register_for_events env xs)) \<le> 3 \<and>
   (length (filter success (register_for_events env xs)) = 3 \<longrightarrow>
      register_for_events env (xs @ ys) = register_for_events env xs)"
proof
  show "length (filter success (register_for_events env xs)) \<le> 3"
    using register_loop_count[of 0 "[]" env xs] by (simp add: register_for_events_def)
  show "length (filter success (register_for_events env xs)) = 3 \<longrightarrow>
      register_for_events env (xs @ ys) = register_for_events env xs"
    using register_loop_stop[of 0 "[]" env xs ys] by (simp add: register_for_events_def)
qed

text \<open>
  On \<open>run5\<close> the first attempt fails and three later ones succeed: four results, three
  of them successful, and a further eligible event appended to the input is not
  processed.
\<close>

theorem register_for_events_cap_witness:
  "length (register_for_events env0 run5) = 4 \<and>
   length (filter success (register_for_events env0 run5)) = 3 \<and>
   register_for_events env0 (run5 @ [free_at ''d'' PEATIX 1]) = register_for_events env0 run5"
proof -
  have l: "length (register_for_events env0 run5) = 4"
    using length_map[of success "register_for_events env0 run5"] by (simp add: run5_results)
  have "length (filter success (register_for_events env0 run5))
        = length (filter (\<lambda>b. b) (map success (register_for_events env0 run5)))"
    by (simp add: filter_map comp_def)
  then have c: "length (filter success (register_for_events env0 run5)) = 3"
    by (simp add: run5_results)
  from register_for_events_cap[of env0 run5 "[free_at ''d'' PEATIX 1]"] l c
  show ?thesis by simp
qed

subsection \<open>Results and eligibility\<close>

lemma register_single_event_cases:
  "(success (register_single_event env re) \<and>
      confirmation_data (register_single_event env re) \<noteq> None \<and>
      error_message (register_single_event env re) = None) \<or>
   (\<not> success (register_single_event env re) \<and>
      confirmation_data (register_single_event env re) = None \<and>
      error_message (register_single_event env re) \<noteq> None)"
  by (simp add: register_single_event_def register_connpass_def register_peatix_def
      register_meetup_def register_generic_def failure_def Let_def split: option.splits)

lemma run5_errors:
  "map error_message (register_for_events env0 run5)
     = [Some (ascii ''Peatix registration failed: boom''), None, None, None]"
  by (simp add: registrar_defs input_defs Let_def)

text \<open>
  C8. Every result of \<open>_register_single_event\<close>, and so every result returned by
  \<open>register_for_events\<close>, satisfies exactly one of: it is successful and carries
  confirmation data; it is not successful and carries an error message.
\<close>

theorem registration_result_invariant:
  "((success (register_single_event env re) \<and>
       confirmation_data (register_single_event env re) \<noteq> None)
     \<noteq> (\<not> success (register_single_event env re) \<and>
       error_message (register_single_event env re) \<noteq> None)) \<and>
   (\<forall>r \<in> set (register_for_events env xs).
      (success r \<and> confirmation_data r \<noteq> None) \<noteq> (\<not> success r \<and> error_message r \<noteq> None))"
proof
  show "(success (register_single_event env re) \<and>
       confirmation_data (register_single_event env re) \<noteq> None)
     \<noteq> (\<not> success (register_single_event env re) \<and>
       error_message (register_single_event env re) \<noteq> None)"
    using register_single_event_cases[of env re] by blast
  show "\<forall>r \<in> set (register_for_events env xs).
      (success r \<and> confirmation_data r \<noteq> None) \<noteq> (\<not> success r \<and> error_message r \<noteq> None)"
  proof
    fix r assume "r \<in> set (register_for_events env xs)"
    then have "r \<in> register_single_event env ` set xs"
      using register_loop_set[of env xs "[]" 0] by (auto simp add: register_for_events_def)
    then obtain x where "r = register_single_event env x" by blast
    with register_single_event_cases[of env x]
    show "(success r \<and> confirmation_data r \<noteq> None) \<noteq> (\<not> success r \<and> error_message r \<noteq> None)"
      by blast
  qed
qed

text \<open>
  The results of \<open>run5\<close>: one failure with its message and no confirmation, three
  successes with a confirmation and no message.
\<close>

theorem registration_result_invariant_witness:
  "map success (register_for_events env0 run5) = [False, True, True, True] \<and>
   map error_message (register_for_events env0 run5)
     = [Some (ascii ''Peatix registration failed: boom''), None, None, None] \<and>
   list_all (\<lambda>r. (success r \<and> confirmation_data r \<noteq> None)
                 \<noteq> (\<not> success r \<and> error_message r \<noteq> None))
     (register_for_events env0 run5)"
  using registration_result_invariant[of env0 _ run5] run5_results run5_errors
  by (simp add: list_all_iff)

text \<open>
  C9. An event whose relevance score is 0.80, whose lowered price contains one of the
  free markers and which requires registration is eligible; an event whose relevance
  score is 0.79 is not, whatever its other fields.
\<close>

theorem should_register_threshold:
  "(relevance_score re = 0.80 \<and>
    list_ex (\<lambda>free_indicator. str_in free_indicator (lower (price (event re)))) free_indicators \<and>
    registration_required (event re) \<longrightarrow> should_register re) \<and>
   (relevance_score re = 0.79 \<longrightarrow> \<not> should_register re)"
  by (simp add: should_register_def Let_def)

theorem should_register_threshold_witness:
  "relevance_score (free_at ''a'' CONNPASS 0.80) = 0.80 \<and>
   list_ex (\<lambda>free_indicator.
              str_in free_indicator (lower (price (event (free_at ''a'' CONNPASS 0.80)))))
     free_indicators \<and>
   registration_required (event (free_at ''a'' CONNPASS 0.80)) \<and>
   should_register (free_at ''a'' CONNPASS 0.80) \<and>
   relevance_score (free_at ''a'' CONNPASS 0.79) = 0.79 \<and>
   \<not> should_register (free_at ''a'' CONNPASS 0.79)"
proof -
  have p: "list_ex (\<lambda>free_indicator.
              str_in free_indicator (lower (price (event (free_at ''a'' CONNPASS 0.80)))))
     free_indicators"
    by (simp add: free_at_def mk_ranked_def mk_event_def free_indicators_def lower_def
        lower_cp_def startswith_def ascii_def)
  have a: "relevance_score (free_at ''a'' CONNPASS 0.80) = 0.80"
          "registration_required (event (free_at ''a'' CONNPASS 0.80))"
          "relevance_score (free_at ''a'' CONNPASS 0.79) = 0.79"
    by (simp_all add: free_at_def mk_ranked_def mk_event_def)
  from should_register_threshold[of "free_at ''a'' CONNPASS 0.80"] p a
  have y: "should_register (free_at ''a'' CONNPASS 0.80)" by blast
  from should_register_threshold[of "free_at ''a'' CONNPASS 0.79"] a
  have n: "\<not> should_register (free_at ''a'' CONNPASS 0.79)" by blast
  from p a y n show ?thesis by blast
qed

text \<open>
  C1, evaluated on the code. The price \<open>\<yen>500\<close> contains the character \<open>0\<close>, which is one
  of the free markers, so with relevance score 1 and registration required the
  predicate \<open>_should_register\<close> holds for the event, and \<open>register_for_events\<close> registers it.
\<close>

theorem should_register_yen500:
  "price (event yen500) = 165 # ascii ''500'' \<and> relevance_score yen500 = 1 \<and>
   registration_required (event yen500) \<and> should_register yen500 \<and>
   map success (register_for_events env0 [yen500]) = [True]"
  by (simp add: registrar_defs input_defs Let_def)


section \<open>The ranker\<close>

lemma round_half_even_bounds:
  assumes "0 \<le> y" "y \<le> of_int n"
  shows "0 \<le> round_half_even y \<and> round_half_even y \<le> n"
proof -
  let ?f = "\<lfloor>y\<rfloor>"
  have f0: "0 \<le> ?f" using assms(1) by simp
  have fn: "?f \<le> n" using assms(2) by (simp add: floor_le_iff)
  have up: "round_half_even y \<le> n"
  proof (cases "?f = n")
    case True
    then have "of_int n \<le> y" by (metis of_int_floor_le)
    with assms(2) have "y = of_int n" by simp
    then show ?thesis by (simp add: round_half_even_def)
  next
    case False
    with fn have "?f + 1 \<le> n" by simp
    then show ?thesis using fn by (simp add: round_half_even_def Let_def)
  qed
  have lo: "0 \<le> round_half_even y" using f0 by (simp add: round_half_even_def Let_def)
  from lo up show ?thesis by simp
qed

lemma round2_unit: "0 \<le> x \<Longrightarrow> x \<le> 1 \<Longrightarrow> 0 \<le> round2 x \<and> round2 x \<le> 1"
proof -
  assume a: "0 \<le> x" "x \<le> 1"
  have "0 \<le> x * 100" "x * 100 \<le> of_int 100" using a by simp_all
  from round_half_even_bounds[OF this]
  have b: "0 \<le> round_half_even (x * 100)" "round_half_even (x * 100) \<le> 100" by simp_all
  have "(of_int (round_half_even (x * 100)) :: real) \<le> 100"
    using b(2) by (metis of_int_le_iff of_int_numeral)
  moreover have "(0::real) \<le> of_int (round_half_even (x * 100))" using b(1) by simp
  ultimately show ?thesis by (simp add: round2_def)
qed

lemma clamp_score_unit: "0 \<le> clamp_score f \<and> clamp_score f \<le> 1"
  by (cases f) simp_all

lemma get_semantic_score_unit:
  "0 \<le> get_semantic_score env ev \<and> get_semantic_score env ev \<le> 1"
  using clamp_score_unit
  by (simp add: get_semantic_score_def Let_def split: sum.splits option.splits)

lemma calculate_relevance_score_Inr:
  "calculate_relevance_score env ev =
     Inr \<lparr>event = ev,
          relevance_score =
            round2 (max 0 (min 1
              (min 1 (real (length (find_keyword_matches ev)) * 0.2) * 0.4 +
               get_semantic_score env ev * 0.3 +
               (if city ev \<in> set target_cities then 1 else 0.3) * 0.2 + 0.1))),
          matched_keywords = find_keyword_matches ev,
          confidence = get_semantic_score env ev\<rparr>"
proof -
  let ?x = "max 0 (min 1
              (min 1 (real (length (find_keyword_matches ev)) * 0.2) * 0.4 +
               get_semantic_score env ev * 0.3 +
               (if city ev \<in> set target_cities then 1 else 0.3) * 0.2 + 0.1))"
  have "0 \<le> ?x" "?x \<le> 1" by simp_all
  from round2_unit[OF this] get_semantic_score_unit[of env ev]
  show ?thesis
    unfolding calculate_relevance_score_def new_RankedEvent_def Let_def by simp
qed

lemma calculate_relevance_score_valid:
  "calculate_relevance_score env ev = Inr r \<Longrightarrow>
     0 \<le> relevance_score r \<and> relevance_score r \<le> 1"
  unfolding calculate_relevance_score_def new_RankedEvent_def Let_def
  by (auto split: if_splits)

lemma rank_loop_set:
  "r \<in> set (rank_loop env evs acc) \<Longrightarrow>
   r \<in> set acc \<or> (\<exists>ev \<in> set evs. calculate_relevance_score env ev = Inr r \<and> 0.6 \<le> relevance_score r)"
proof (induction evs arbitrary: acc)
  case Nil
  then show ?case by simp
next
  case (Cons ev evs)
  show ?case
  proof (cases "calculate_relevance_score env ev")
    case (Inl e)
    with Cons.prems have "r \<in> set (rank_loop env evs acc)" by simp
    from Cons.IH[OF this] show ?thesis by auto
  next
    case (Inr x)
    show ?thesis
    proof (cases "0.6 \<le> relevance_score x")
      case True
      with Inr Cons.prems have "r \<in> set (rank_loop env evs (acc @ [x]))" by simp
      from Cons.IH[OF this] Inr True show ?thesis by auto
    next
      case False
      with Inr Cons.prems have "r \<in> set (rank_loop env evs acc)" by simp
      from Cons.IH[OF this] show ?thesis by auto
    qed
  qed
qed

lemma sorted_desc_sort_key:
  "sorted_wrt (\<lambda>a b. f b \<le> (f a :: real)) (sort_key (\<lambda>x. - f x) xs)"
proof -
  have "sorted (map (\<lambda>x. - f x) (sort_key (\<lambda>x. - f x) xs))" by (rule sorted_sort_key)
  then show ?thesis by (simp add: sorted_map)
qed



lemma m_ai: "find_keyword_matches ev_ai = [ascii ''startup'', ascii ''AI'', ascii ''tech'']"
  by (simp add: find_keyword_matches_def relevance_keywords_def lower_def lower_cp_def
      startswith_def ascii_def ev_ai_def ev_at_def)

lemma m_low: "find_keyword_matches ev_low = []"
  by (simp add: find_keyword_matches_def relevance_keywords_def lower_def lower_cp_def
      startswith_def ascii_def ev_low_def ev_at_def)

lemma m_mid: "find_keyword_matches ev_mid = [ascii ''AI'', ascii ''hiring'']"
  by (simp add: find_keyword_matches_def relevance_keywords_def lower_def lower_cp_def
      startswith_def ascii_def ev_mid_def ev_at_def)

lemma s_ai: "get_semantic_score renv0 ev_ai = 9 / 10"
  by (simp add: get_semantic_score_def strip_def isspace_def ascii_def ev_ai_def ev_at_def
      renv0_def)

lemma s_low: "get_semantic_score renv0 ev_low = 1 / 2"
  by (simp add: get_semantic_score_def ascii_def ev_low_def ev_at_def renv0_def)

lemma s_mid: "get_semantic_score renv0 ev_mid = 1 / 2"
  by (simp add: get_semantic_score_def ascii_def ev_mid_def ev_at_def renv0_def)

lemma city_ai: "city ev_ai \<in> set target_cities"
  by (simp add: ev_ai_def ev_at_def target_cities_def)

lemma city_low: "city ev_low \<notin> set target_cities"
  by (simp add: ev_low_def ev_at_def target_cities_def ascii_def)

lemma city_mid: "city ev_mid \<in> set target_cities"
  by (simp add: ev_mid_def ev_at_def target_cities_def)

lemma score_ai:
  "map_sum id relevance_score (calculate_relevance_score renv0 ev_ai) = Inr (81 / 100)"
  by (simp add: calculate_relevance_score_Inr m_ai s_ai city_ai round2_def round_half_even_def)

lemma score_low:
  "map_sum id relevance_score (calculate_relevance_score renv0 ev_low) = Inr (31 / 100)"
  by (simp add: calculate_relevance_score_Inr m_low s_low city_low round2_def
      round_half_even_def)

lemma score_mid:
  "map_sum id relevance_score (calculate_relevance_score renv0 ev_mid) = Inr (61 / 100)"
  by (simp add: calculate_relevance_score_Inr m_mid s_mid city_mid round2_def
      round_half_even_def)

lemma ranked_scores:
  "map relevance_score (rank_events renv0 [ev_low, ev_mid, ev_ai]) = [81 / 100, 61 / 100]"
  using score_ai score_low score_mid
  by (auto simp add: rank_events_def split: sum.splits)

text \<open>
  C3. Every element of the list returned by \<open>rank_events\<close> has a relevance score
  between 0 and 1 that is at least 0.6, and the list is in non-increasing order of
  score.
\<close>

theorem rank_events_sound:
  "(\<forall>r \<in> set (rank_events env events).
      0 \<le> relevance_score r \<and> relevance_score r \<le> 1 \<and> 0.6 \<le> relevance_score r) \<and>
   sorted_wrt (\<lambda>a b. relevance_score b \<le> relevance_score a) (rank_events env events)"
proof
  show "\<forall>r \<in> set (rank_events env events).
      0 \<le> relevance_score r \<and> relevance_score r \<le> 1 \<and> 0.6 \<le> relevance_score r"
  proof
    fix r assume "r \<in> set (rank_events env events)"
    then have "r \<in> set (rank_loop env events [])" by (simp add: rank_events_def)
    from rank_loop_set[OF this] obtain ev where
      "calculate_relevance_score env ev = Inr r" "0.6 \<le> relevance_score r" by auto
    with calculate_relevance_score_valid[of env ev r]
    show "0 \<le> relevance_score r \<and> relevance_score r \<le> 1 \<and> 0.6 \<le> relevance_score r" by simp
  qed
  show "sorted_wrt (\<lambda>a b. relevance_score b \<le> relevance_score a) (rank_events env events)"
    unfolding rank_events_def Let_def by (rule sorted_desc_sort_key)
qed

theorem rank_events_sound_witness:
  "map relevance_score (rank_events renv0 [ev_low, ev_mid, ev_ai]) = [81 / 100, 61 / 100] \<and>
   list_all (\<lambda>r. 0 \<le> relevance_score r \<and> relevance_score r \<le> 1 \<and> 0.6 \<le> relevance_score r)
     (rank_events renv0 [ev_low, ev_mid, ev_ai]) \<and>
   sorted_wrt (\<lambda>a b. relevance_score b \<le> relevance_score a)
     (rank_events renv0 [ev_low, ev_mid, ev_ai])"
  using rank_events_sound[of renv0 "[ev_low, ev_mid, ev_ai]"] ranked_scores
  by (simp add: list_all_iff)




section \<open>The store\<close>

lemma keys_for_append:
  "rows t' = rows t @ added \<Longrightarrow>
   keys_for t' url = keys_for t url @ map fst (filter (\<lambda>r. d_source_url (snd r) = url) added)"
  by (simp add: keys_for_def)

lemma table_step_existing:
  assumes "keys_for t (source_url ev) = k # ks"
  shows "save_loop (table_env c f) t i (ev # rest) acc
         = save_loop (table_env c f) t (i + 1) rest (acc @ [k])"
  using assms by (simp add: table_env_def table_select_def)

lemma table_step_new:
  assumes "keys_for t (source_url ev) = []"
  shows "save_loop (table_env c f) t i (ev # rest) acc
         = save_loop (table_env c f)
             \<lparr>rows = rows t @ [(digits10 (next_id t), to_event_data (table_env c f) i ev)],
              next_id = next_id t + 1\<rparr>
             (i + 1) rest (acc @ [digits10 (next_id t)])"
  using assms by (simp add: table_env_def table_select_def table_insert_def Let_def)

lemma to_event_data_url: "d_source_url (to_event_data env i ev) = source_url ev"
  by (simp add: to_event_data_def)

text \<open>The loop over a table: what it returns and what it leaves.\<close>

lemma save_loop_table:
  "save_loop (table_env c f) t i es acc = (ids, t') \<Longrightarrow>
   (\<exists>added. rows t' = rows t @ added) \<and>
   ids = acc @ map (\<lambda>e. hd (keys_for t' (source_url e))) es \<and>
   (\<forall>url. rows_for t' url =
      (if url \<in> source_url ` set es \<and> rows_for t url = 0 then 1 else rows_for t url))"
proof (induction es arbitrary: t i acc)
  case Nil
  then show ?case by simp
next
  case step: (Cons ev es)
  let ?u = "source_url ev"
  show ?case
  proof (cases "keys_for t ?u")
    case (Cons k ks)
    from step.prems have run: "save_loop (table_env c f) t (i + 1) es (acc @ [k]) = (ids, t')"
      by (simp only: table_step_existing[OF Cons])
    from step.IH[OF run] obtain added where
      a: "rows t' = rows t @ added" and
      b: "ids = (acc @ [k]) @ map (\<lambda>e. hd (keys_for t' (source_url e))) es" and
      d: "\<forall>url. rows_for t' url =
           (if url \<in> source_url ` set es \<and> rows_for t url = 0 then 1 else rows_for t url)"
      by blast
    have "hd (keys_for t' ?u) = k" using keys_for_append[OF a, of ?u] Cons by simp
    with b have b': "ids = acc @ map (\<lambda>e. hd (keys_for t' (source_url e))) (ev # es)" by simp
    have pos: "rows_for t ?u \<noteq> 0" using Cons by (simp add: rows_for_def)
    have d': "\<forall>url. rows_for t' url =
           (if url \<in> source_url ` set (ev # es) \<and> rows_for t url = 0 then 1 else rows_for t url)"
      using d pos by auto
    from a b' d' show ?thesis by blast
  next
    case Nil
    let ?k = "digits10 (next_id t)"
    let ?t1 = "\<lparr>rows = rows t @ [(?k, to_event_data (table_env c f) i ev)],
               next_id = next_id t + 1\<rparr>"
    from step.prems have run: "save_loop (table_env c f) ?t1 (i + 1) es (acc @ [?k]) = (ids, t')"
      by (simp only: table_step_new[OF Nil])
    from step.IH[OF run] obtain added where
      a: "rows t' = rows ?t1 @ added" and
      b: "ids = (acc @ [?k]) @ map (\<lambda>e. hd (keys_for t' (source_url e))) es" and
      d: "\<forall>url. rows_for t' url =
           (if url \<in> source_url ` set es \<and> rows_for ?t1 url = 0 then 1 else rows_for ?t1 url)"
      by blast
    have k1: "keys_for ?t1 url = keys_for t url @ (if url = ?u then [?k] else [])" for url
      by (simp add: keys_for_def to_event_data_url)
    have "hd (keys_for t' ?u) = ?k" using keys_for_append[OF a, of ?u] k1[of ?u] Nil by simp
    with b have b': "ids = acc @ map (\<lambda>e. hd (keys_for t' (source_url e))) (ev # es)" by simp
    have a': "rows t' = rows t @ ((?k, to_event_data (table_env c f) i ev) # added)"
      using a by simp
    have r1: "rows_for ?t1 url = rows_for t url + (if url = ?u then 1 else 0)" for url
      using k1[of url] by (simp add: rows_for_def)
    have z: "rows_for t ?u = 0" using Nil by (simp add: rows_for_def)
    have d': "\<forall>url. rows_for t' url =
           (if url \<in> source_url ` set (ev # es) \<and> rows_for t url = 0 then 1 else rows_for t url)"
    proof
      fix url
      show "rows_for t' url =
           (if url \<in> source_url ` set (ev # es) \<and> rows_for t url = 0 then 1 else rows_for t url)"
        using d[rule_format, of url] r1[of url] z by (cases "url = ?u") auto
    qed
    from a' b' d' show ?thesis by blast
  qed
qed

lemma save_loop_table_known:
  assumes "keys_for t (source_url e) \<noteq> []"
  shows "save_events (table_env c f) t [e] = ([hd (keys_for t (source_url e))], t)"
  using assms by (cases "keys_for t (source_url e)")
     (simp_all add: save_events_def table_env_def table_select_def)

lemma saved_urls:
  "source_url ev_ai = ascii ''u1''" "source_url ev_mid = ascii ''u3''"
  "source_url ev_ai_again = ascii ''u1''"
  by (simp_all add: ev_ai_def ev_mid_def ev_ai_again_def ev_at_def)

lemma saved_keys:
  "fst (save_events (table_env clock0 iso0) table0 [ev_ai, ev_mid, ev_ai_again])
     = [ascii ''1'', ascii ''2'', ascii ''1''] \<and>
   map fst (rows (snd (save_events (table_env clock0 iso0) table0 [ev_ai, ev_mid, ev_ai_again])))
     = [ascii ''1'', ascii ''2'']"
proof -
  have "ascii ''u1'' \<noteq> ascii ''u3''" by (simp add: ascii_def)
  moreover have "digits10 1 = ascii ''1''" "digits10 (Suc (Suc 0)) = ascii ''2''"
    by (simp_all add: digits10.simps ascii_def)
  ultimately show ?thesis
    by (simp add: save_events_def table_env_def table_select_def table_insert_def keys_for_def
        to_event_data_def table0_def saved_urls Let_def)
qed

text \<open>
  C5. Over a store that honours the contract of lookup and insertion, \<open>save_events\<close>
  returns one key for each event; two events of the input with the same \<open>source_url\<close>
  get the same key; saving an event with such a \<open>source_url\<close> again, in a later call,
  returns that key once more and leaves the table as it is; and the table ends with
  exactly one row for a \<open>source_url\<close> that had none, and with the rows it had otherwise.
\<close>

theorem save_events_idempotent:
  assumes "save_events (table_env c f) t es = (ids, t')"
  shows "length ids = length es \<and>
    (\<forall>i<length es. \<forall>j<length es.
        source_url (es ! i) = source_url (es ! j) \<longrightarrow> ids ! i = ids ! j) \<and>
    (\<forall>i<length es. \<forall>e::Event. source_url e = source_url (es ! i) \<longrightarrow>
        save_events (table_env c' f') t' [e] = ([ids ! i], t')) \<and>
    (\<forall>e\<in>set es. rows_for t' (source_url e) = max 1 (rows_for t (source_url e)))"
proof -
  from assms have run: "save_loop (table_env c f) t 0 es [] = (ids, t')"
    by (simp add: save_events_def)
  from save_loop_table[OF run] have
    b: "ids = map (\<lambda>e. hd (keys_for t' (source_url e))) es" and
    d: "\<And>url. rows_for t' url =
           (if url \<in> source_url ` set es \<and> rows_for t url = 0 then 1 else rows_for t url)"
    by simp_all
  have l: "length ids = length es" using b by simp
  have same: "\<forall>i<length es. \<forall>j<length es.
        source_url (es ! i) = source_url (es ! j) \<longrightarrow> ids ! i = ids ! j"
    using b by simp
  have cnt: "\<forall>e\<in>set es. rows_for t' (source_url e) = max 1 (rows_for t (source_url e))"
    using d by auto
  have again: "\<forall>i<length es. \<forall>e::Event. source_url e = source_url (es ! i) \<longrightarrow>
        save_events (table_env c' f') t' [e] = ([ids ! i], t')"
  proof (intro allI impI)
    fix i and e :: Event
    assume i: "i < length es" and u: "source_url e = source_url (es ! i)"
    have "es ! i \<in> set es" using i by simp
    with cnt have "rows_for t' (source_url e) \<noteq> 0" using u by auto
    then have "keys_for t' (source_url e) \<noteq> []" by (simp add: rows_for_def)
    from save_loop_table_known[OF this, of c' f'] show
      "save_events (table_env c' f') t' [e] = ([ids ! i], t')"
      using b i u by simp
  qed
  from l same again cnt show ?thesis by blast
qed

text \<open>
  Saving \<open>ev_ai\<close>, \<open>ev_mid\<close> and a second event with the URL of \<open>ev_ai\<close> into the empty
  table returns the keys 1, 2, 1 and leaves two rows; saving \<open>ev_ai\<close> once more returns
  key 1 and the same table.
\<close>

theorem save_events_idempotent_witness:
  "fst (save_events (table_env clock0 iso0) table0 [ev_ai, ev_mid, ev_ai_again])
     = [ascii ''1'', ascii ''2'', ascii ''1''] \<and>
   map fst (rows (snd (save_events (table_env clock0 iso0) table0 [ev_ai, ev_mid, ev_ai_again])))
     = [ascii ''1'', ascii ''2''] \<and>
   rows_for (snd (save_events (table_env clock0 iso0) table0 [ev_ai, ev_mid, ev_ai_again]))
     (source_url ev_ai) = 1 \<and>
   save_events (table_env clock0 iso0)
     (snd (save_events (table_env clock0 iso0) table0 [ev_ai, ev_mid, ev_ai_again])) [ev_ai]
     = ([ascii ''1''],
        snd (save_events (table_env clock0 iso0) table0 [ev_ai, ev_mid, ev_ai_again]))"
proof -
  let ?es = "[ev_ai, ev_mid, ev_ai_again]"
  let ?run = "save_events (table_env clock0 iso0) table0 ?es"
  have run: "?run = (fst ?run, snd ?run)" by simp
  note th = save_events_idempotent[OF run, of clock0 iso0]
  from th have "\<forall>i<length ?es. \<forall>e::Event. source_url e = source_url (?es ! i) \<longrightarrow>
        save_events (table_env clock0 iso0) (snd ?run) [e] = ([fst ?run ! i], snd ?run)"
    by blast
  then have "save_events (table_env clock0 iso0) (snd ?run) [ev_ai] = ([fst ?run ! 0], snd ?run)"
    by (metis length_greater_0_conv list.discI nth_Cons_0)
  then have again: "save_events (table_env clock0 iso0) (snd ?run) [ev_ai]
      = ([ascii ''1''], snd ?run)"
    by (simp add: saved_keys)
  from th have "\<forall>e\<in>set ?es. rows_for (snd ?run) (source_url e)
      = max 1 (rows_for table0 (source_url e))"
    by blast
  then have "rows_for (snd ?run) (source_url ev_ai) = max 1 (rows_for table0 (source_url ev_ai))"
    by simp
  then have one: "rows_for (snd ?run) (source_url ev_ai) = 1"
    by (simp add: rows_for_def keys_for_def table0_def)
  from saved_keys again one show ?thesis by simp
qed


section \<open>The notifier\<close>

lemma send_weekly_digest_eq:
  "send_weekly_digest env rs =
     (telegram_succeeded env rs \<or> email_succeeded env rs \<or>
      \<not> telegram_bot env \<or> \<not> truthy (EMAIL_USERNAME env))"
  by (auto simp add: send_weekly_digest_def telegram_succeeded_def email_succeeded_def Let_def)

lemma labels_differ: "auto_registered \<noteq> manual_review"
  by (simp add: auto_registered_def manual_review_def)

lemma run6_registered:
  "map (source_url \<circ> event \<circ> ranked) (register_for_events env0 run6)
     = [ascii ''a'', ascii ''b'', ascii ''c'']"
  by (simp add: registrar_defs input_defs run6_def Let_def)

lemma run6_labels:
  "digest_labels nenv_none run6
     = [auto_registered, auto_registered, auto_registered, auto_registered, auto_registered,
        manual_review]"
  by (simp add: digest_labels_def digest_event_def run6_def free_at_def mk_ranked_def)

text \<open>
  C6, evaluated on the code. With no channel configured nothing is sent and
  \<open>send_weekly_digest\<close> returns \<open>True\<close>; with only e-mail configured and its delivery
  failing, no channel succeeds and \<open>send_weekly_digest\<close> returns \<open>True\<close> as well: a
  channel that is not configured leaves its flag at the initial \<open>True\<close>.
\<close>

theorem send_weekly_digest_no_channel:
  "send_weekly_digest nenv_none [] \<and>
   \<not> telegram_succeeded nenv_none [] \<and> \<not> email_succeeded nenv_none [] \<and>
   send_weekly_digest nenv_smtp_down run6 \<and>
   \<not> telegram_succeeded nenv_smtp_down run6 \<and> \<not> email_succeeded nenv_smtp_down run6"
  by (simp add: send_weekly_digest_def telegram_succeeded_def email_succeeded_def
      send_email_digest_def truthy_def nenv_none_def nenv_smtp_down_def ascii_def Let_def)

text \<open>
  C10. The label of a ranked event in the digest is the auto-registered label exactly
  when its relevance score is at least 0.8; the labels of a digest are determined by
  the scores of its first ten events; in particular an event of the digest with score
  at least 0.8 for which \<open>register_for_events\<close> returned no result (it was not eligible,
  or the cap was reached) is labelled auto-registered.
\<close>

theorem digest_label_by_score:
  "(registration_status (digest_event env r) = auto_registered \<longleftrightarrow> 0.8 \<le> relevance_score r) \<and>
   digest_labels env rs
     = map (\<lambda>r. if 0.8 \<le> relevance_score r then auto_registered else manual_review) (take 10 rs) \<and>
   (\<forall>x \<in> set (take 10 rs).
      0.8 \<le> relevance_score x \<and> x \<notin> ranked ` set (register_for_events genv rs) \<longrightarrow>
      registration_status (digest_event env x) = auto_registered)"
  using labels_differ by (simp add: digest_event_def digest_labels_def)

text \<open>
  In \<open>run6\<close> the events \<open>a\<close>, \<open>b\<close> and \<open>c\<close> are registered; \<open>d\<close>, left out by the cap, and
  \<open>e\<close>, left out for its price, are labelled auto-registered all the same.
\<close>

theorem digest_label_by_score_witness:
  "map (source_url \<circ> event \<circ> ranked) (register_for_events env0 run6)
     = [ascii ''a'', ascii ''b'', ascii ''c''] \<and>
   free_at ''d'' CONNPASS 0.82 \<in> set (take 10 run6) \<and>
   0.8 \<le> relevance_score (free_at ''d'' CONNPASS 0.82) \<and>
   free_at ''d'' CONNPASS 0.82 \<notin> ranked ` set (register_for_events env0 run6) \<and>
   registration_status (digest_event nenv_none (free_at ''d'' CONNPASS 0.82)) = auto_registered \<and>
   digest_labels nenv_none run6
     = [auto_registered, auto_registered, auto_registered, auto_registered, auto_registered,
        manual_review]"
proof -
  let ?d = "free_at ''d'' CONNPASS 0.82"
  have m: "?d \<in> set (take 10 run6)" by (simp add: run6_def)
  have s: "0.8 \<le> relevance_score ?d" by (simp add: free_at_def mk_ranked_def)
  have u: "source_url (event ?d) = ascii ''d''"
    by (simp add: free_at_def mk_ranked_def mk_event_def)
  have n: "?d \<notin> ranked ` set (register_for_events env0 run6)"
  proof
    assume "?d \<in> ranked ` set (register_for_events env0 run6)"
    then have "source_url (event ?d)
        \<in> set (map (source_url \<circ> event \<circ> ranked) (register_for_events env0 run6))"
      by auto
    then show False using u by (simp add: run6_registered ascii_def)
  qed
  from digest_label_by_score[of nenv_none ?d run6 env0] m s n
  have l: "registration_status (digest_event nenv_none ?d) = auto_registered" by blast
  from run6_registered m s n l run6_labels show ?thesis by blast
qed


section \<open>The finder\<close>

lemma search_connpass_fallback:
  "query_fails env c \<Longrightarrow> search_connpass env c = get_connpass_mock_events env c"
  by (auto simp add: query_fails_def search_connpass_def isl_def split: sum.splits)

lemma extend_all_concat: "extend_all rs acc = acc @ concat rs"
  by (induction rs arbitrary: acc) auto

lemma discover_events_concat:
  "discover_events env = concat (map (\<lambda>(platform, cty). search_platform env platform cty) tasks)"
  by (simp add: discover_events_def extend_all_concat)

lemma get_connpass_mock_events_env:
  "get_connpass_mock_events (env\<lparr>http_get := g\<rparr>) c = get_connpass_mock_events env c"
  by (simp add: get_connpass_mock_events_def)

lemma parse_connpass_item_env:
  "parse_connpass_item (env\<lparr>http_get := g\<rparr>) c j item = parse_connpass_item env c j item"
  by (simp add: parse_connpass_item_def Let_def split: option.splits)

lemma parse_connpass_items_env:
  "parse_connpass_items (env\<lparr>http_get := g\<rparr>) c j items acc
     = parse_connpass_items env c j items acc"
proof (induction items arbitrary: j acc)
  case Nil
  then show ?case by simp
next
  case (Cons a items)
  then show ?case by (cases a) (simp_all add: parse_connpass_item_env)
qed

lemma search_connpass_other:
  "c' \<noteq> c \<Longrightarrow>
   search_connpass (env\<lparr>http_get := (http_get env)(c := r)\<rparr>) c' = search_connpass env c'"
  by (simp add: search_connpass_def get_connpass_mock_events_env parse_connpass_items_env
      split: sum.splits)

lemma search_platform_other:
  "(p, c') \<noteq> (CONNPASS, c) \<Longrightarrow>
   search_platform (env\<lparr>http_get := (http_get env)(c := r)\<rparr>) p c' = search_platform env p c'"
  by (auto simp add: search_platform_def search_connpass_other search_peatix_def
      search_meetup_def)

lemma osaka_fails: "query_fails fenv0 (ascii ''Osaka'')"
  by (simp add: query_fails_def fenv0_def)

lemma kyoto_fails: "query_fails fenv0 (ascii ''Kyoto'')"
  by (simp add: query_fails_def fenv0_def ascii_def)

lemma kobe_search:
  "map title (search_connpass fenv0 (ascii ''Kobe'')) = [ascii ''Kobe JS''] \<and>
   map city (search_connpass fenv0 (ascii ''Kobe'')) = [ascii ''Kobe''] \<and>
   map price (search_connpass fenv0 (ascii ''Kobe'')) = [165 # ascii ''500'']"
  by (simp add: search_connpass_def fenv0_def kobe_item_def parse_connpass_item_def
      convert_city_name_def city_mapping_def get_default_def lower_def lower_cp_def
      startswith_def ascii_def)

lemma osaka_search:
  "map title (search_connpass fenv0 (ascii ''Osaka'')) = [ascii ''Tech Community Meetup Osaka'']"
  by (simp add: search_connpass_fallback[OF osaka_fails] get_connpass_mock_events_def)
     (simp add: ascii_def)

lemma kyoto_search:
  "map title (search_connpass fenv0 (ascii ''Kyoto'')) = [ascii ''Tech Community Meetup Kyoto'']"
  by (simp add: search_connpass_fallback[OF kyoto_fails] get_connpass_mock_events_def)
     (simp add: ascii_def)

lemma discovered_titles:
  "map title (discover_events fenv0) =
     [ascii ''Tech Community Meetup Osaka'', ascii ''AI & Startup Networking in Osaka'',
      ascii ''Tech Innovation Meetup Osaka'',
      ascii ''Kobe JS'', ascii ''AI & Startup Networking in Kobe'',
      ascii ''Tech Innovation Meetup Kobe'',
      ascii ''Tech Community Meetup Kyoto'', ascii ''AI & Startup Networking in Kyoto'',
      ascii ''Tech Innovation Meetup Kyoto'']"
  by (simp add: discover_events_concat tasks_def cities_def platforms_def search_platform_def
      osaka_search kyoto_search kobe_search search_peatix_def search_meetup_def)
     (simp add: ascii_def)

text \<open>
  C7. When the query of a city fails, the Connpass search of that city returns the mock
  events of the city, a list of one event built from the city and the clock alone;
  \<open>discover_events\<close> returns the results of all pairs of platform and city, in the
  order of the tasks, so the mock events of a target city and the results of every
  other pair are part of it; and the result of any other pair is the same whatever the
  outcome \<open>r\<close> of the request for that city is. \<open>discover_events\<close> is a total function
  to lists: no branch of it raises.
\<close>

theorem discover_events_fallback:
  assumes "query_fails env c"
  shows "search_platform env CONNPASS c = get_connpass_mock_events env c \<and>
    length (get_connpass_mock_events env c) = 1 \<and>
    discover_events env
      = concat (map (\<lambda>(platform, cty). search_platform env platform cty) tasks) \<and>
    (c \<in> set cities \<longrightarrow>
       set (get_connpass_mock_events env c) \<subseteq> set (discover_events env)) \<and>
    (\<forall>p c'. (p, c') \<in> set tasks \<longrightarrow>
       set (search_platform env p c') \<subseteq> set (discover_events env)) \<and>
    (\<forall>p c' r. (p, c') \<noteq> (CONNPASS, c) \<longrightarrow>
       search_platform (env\<lparr>http_get := (http_get env)(c := r)\<rparr>) p c'
         = search_platform env p c')"
proof -
  have a: "search_platform env CONNPASS c = get_connpass_mock_events env c"
    using assms by (simp add: search_platform_def search_connpass_fallback)
  have b: "length (get_connpass_mock_events env c) = 1"
    by (simp add: get_connpass_mock_events_def)
  have d: "\<forall>p c'. (p, c') \<in> set tasks \<longrightarrow>
       set (search_platform env p c') \<subseteq> set (discover_events env)"
    by (auto simp add: discover_events_concat)
  have t: "c \<in> set cities \<Longrightarrow> (CONNPASS, c) \<in> set tasks"
    by (auto simp add: tasks_def platforms_def)
  have e: "c \<in> set cities \<longrightarrow>
       set (get_connpass_mock_events env c) \<subseteq> set (discover_events env)"
    using d t a by metis
  have f: "\<forall>p c' r. (p, c') \<noteq> (CONNPASS, c) \<longrightarrow>
       search_platform (env\<lparr>http_get := (http_get env)(c := r)\<rparr>) p c'
         = search_platform env p c'"
    using search_platform_other by blast
  from a b discover_events_concat d e f show ?thesis by blast
qed

text \<open>
  In \<open>fenv0\<close> the request for Osaka raises: the search still yields the mock event of
  Osaka, the event parsed from the answer for Kobe is part of the nine events
  discovered.
\<close>

theorem discover_events_fallback_witness:
  "query_fails fenv0 (ascii ''Osaka'') \<and>
   search_platform fenv0 CONNPASS (ascii ''Osaka'')
     = get_connpass_mock_events fenv0 (ascii ''Osaka'') \<and>
   set (get_connpass_mock_events fenv0 (ascii ''Osaka'')) \<subseteq> set (discover_events fenv0) \<and>
   set (search_platform fenv0 CONNPASS (ascii ''Kobe'')) \<subseteq> set (discover_events fenv0) \<and>
   map title (search_platform fenv0 CONNPASS (ascii ''Kobe'')) = [ascii ''Kobe JS''] \<and>
   length (discover_events fenv0) = 9"
proof -
  note th = discover_events_fallback[OF osaka_fails]
  have o: "ascii ''Osaka'' \<in> set cities" by (simp add: cities_def)
  have k: "(CONNPASS, ascii ''Kobe'') \<in> set tasks"
    by (simp add: tasks_def cities_def platforms_def)
  have a: "search_platform fenv0 CONNPASS (ascii ''Osaka'')
     = get_connpass_mock_events fenv0 (ascii ''Osaka'')"
    using th by blast
  have b: "set (get_connpass_mock_events fenv0 (ascii ''Osaka'')) \<subseteq> set (discover_events fenv0)"
    using th o by blast
  have c: "set (search_platform fenv0 CONNPASS (ascii ''Kobe'')) \<subseteq> set (discover_events fenv0)"
    using th k by blast
  have d: "map title (search_platform fenv0 CONNPASS (ascii ''Kobe'')) = [ascii ''Kobe JS'']"
    using kobe_search by (simp add: search_platform_def)
  have e: "length (discover_events fenv0) = 9"
    using length_map[of title "discover_events fenv0"] by (simp add: discovered_titles)
  from osaka_fails a b c d e show ?thesis by blast
qed

end
